theory Spec2Isabelle
  imports Main
begin

section \<open>The nesa2csv converter\<close>

text \<open>
  The converter reads weather-station log lines and writes one CSV file. Two revisions of
  the program are covered here:
  \<^item> the recency-filtering revision of \<^verbatim>\<open>nesa2csv.go\<close> (its \<^verbatim>\<open>parseRow\<close> takes a cutoff
    time); its functions keep their names;
  \<^item> the earlier revision without a cutoff and with the five-entry nested table; its
    functions carry the suffix \<^verbatim>\<open>_plain\<close>.
  The two share \<^verbatim>\<open>zeroPad\<close> and the \<^verbatim>\<open>Record\<close> type word for word. The oldest text of
  the program (a one-level table, no zero padding, no trimming of the station
  identifier) is not modelled; no property below is about it.
\<close>

subsection \<open>Library functions of Go used by the converter\<close>

text \<open>
  A Go string is a sequence of bytes: a \<^typ>\<open>string\<close> (a list of \<^typ>\<open>char\<close>) here, and
  \<^verbatim>\<open>len\<close> is \<^const>\<open>length\<close>.

  \<^verbatim>\<open>strings.Split(s, sep)\<close>, for the one-byte separators the converter uses: the field
  before the first separator, then the split of what follows it; a string without a
  separator is its own single field.
\<close>

function Split :: "string \<Rightarrow> char \<Rightarrow> string list" where
  "Split s sep =
     (case dropWhile (\<lambda>c. c \<noteq> sep) s of
        [] \<Rightarrow> [s]
      | _ # rest \<Rightarrow> takeWhile (\<lambda>c. c \<noteq> sep) s # Split rest sep)"
  by pat_completeness auto
termination
proof (relation "measure (\<lambda>(s, sep). length s)")
  show "wf (measure (\<lambda>(s, sep). length s))" by simp
next
  fix s :: string and sep :: char and x rest
  assume "dropWhile (\<lambda>c. c \<noteq> sep) s = x # rest"
  then have "Suc (length rest) = length (dropWhile (\<lambda>c. c \<noteq> sep) s)" by simp
  also have "\<dots> \<le> length s" by (rule length_dropWhile_le)
  finally show "((rest, sep), (s, sep)) \<in> measure (\<lambda>(s, sep). length s)" by simp
qed

declare Split.simps [simp del]

text \<open>\<^verbatim>\<open>strings.TrimLeft(s, cutset)\<close>: \<open>s\<close> without its leading bytes that occur in \<open>cutset\<close>.\<close>

definition TrimLeft :: "string \<Rightarrow> string \<Rightarrow> string" where
  "TrimLeft s cutset = dropWhile (\<lambda>c. c \<in> set cutset) s"

text \<open>\<^verbatim>\<open>strings.HasPrefix\<close> and \<^verbatim>\<open>strings.HasSuffix\<close>.\<close>

definition HasPrefix :: "string \<Rightarrow> string \<Rightarrow> bool" where
  "HasPrefix s p = (length p \<le> length s \<and> take (length p) s = p)"

definition HasSuffix :: "string \<Rightarrow> string \<Rightarrow> bool" where
  "HasSuffix s p = (length p \<le> length s \<and> drop (length s - length p) s = p)"

text \<open>
  Indexing a slice out of range panics in Go: the program stops, no error value is
  returned. A computation that can panic returns a \<open>res\<close>; \<open>Panic i n\<close> is the runtime
  error "index out of range [i] with length n".
\<close>

datatype 'a res = Panic nat nat | Ret 'a

definition index :: "'a list \<Rightarrow> nat \<Rightarrow> 'a res" where
  "index xs i = (if i < length xs then Ret (xs ! i) else Panic i (length xs))"

fun bind_res :: "'a res \<Rightarrow> ('a \<Rightarrow> 'b res) \<Rightarrow> 'b res" where
  "bind_res (Panic i n) f = Panic i n"
| "bind_res (Ret x) f = f x"

text \<open>
  \<^verbatim>\<open>time.Parse\<close> belongs to Go's standard library. The row parser takes it as a
  parameter: a function from the timestamp text to the instant it denotes, or \<open>None\<close>
  where \<^verbatim>\<open>time.Parse\<close> returns an error. An instant is a point on the time line, an
  integer count of clock ticks, and \<^verbatim>\<open>t.Before(u)\<close> is the strict order.
\<close>

type_synonym Time = int

definition Before :: "Time \<Rightarrow> Time \<Rightarrow> bool" where
  "Before t u = (t < u)"

subsection \<open>Data model\<close>

text \<open>The errors the converter builds with \<^verbatim>\<open>fmt.Errorf\<close>, and their messages.\<close>

datatype error =
    InvalidRow string
  | InvalidTimestamp string
  | CannotOpen string string
  | ErrorReading string string
  | CannotAccess string string

fun Error :: "error \<Rightarrow> string" where
  "Error (InvalidRow line) = ''invalid row: '' @ line"
| "Error (InvalidTimestamp ts) = ''invalid timestamp: '' @ ts"
| "Error (CannotOpen path msg) = ''cannot open file '' @ path @ '': '' @ msg"
| "Error (ErrorReading path msg) = ''error reading file '' @ path @ '': '' @ msg"
| "Error (CannotAccess path msg) = ''cannot access '' @ path @ '': '' @ msg"

text \<open>
  \<^verbatim>\<open>Record\<close>. The Go map \<^verbatim>\<open>Values\<close> is a partial function; reading a key that is not set
  (or reading the nil map of \<^verbatim>\<open>Record{}\<close>) gives the empty string, which is \<open>lookup\<close>.
\<close>

record Record =
  StationID :: string
  Timestamp :: string
  Values :: "string \<rightharpoonup> string"

definition lookup :: "(string \<rightharpoonup> string) \<Rightarrow> string \<Rightarrow> string" where
  "lookup m k = (case m k of None \<Rightarrow> [] | Some v \<Rightarrow> v)"

text \<open>\<^verbatim>\<open>zeroPad\<close>: a one-byte string gets a leading \<open>0\<close>.\<close>

definition zeroPad :: "string \<Rightarrow> string" where
  "zeroPad num = (if length num = 1 then ''0'' @ num else num)"

subsection \<open>The recency-filtering revision: tables and row parser\<close>

definition measurementMap :: "string \<rightharpoonup> (string \<rightharpoonup> string)" where
  "measurementMap = map_of
     [(''1'', map_of [(''2'', ''Temperature_Avg''), (''3'', ''Temperature_Min''), (''4'', ''Temperature_Max'')]),
      (''2'', map_of [(''2'', ''Humidity_Avg''), (''3'', ''Humidity_Min''), (''4'', ''Humidity_Max'')]),
      (''9'', map_of [(''2'', ''Windspeed_Avg''), (''3'', ''Windspeed_Min''), (''4'', ''Windspeed_Max'')]),
      (''4'', map_of [(''2'', ''Wind Direction_Avg''), (''3'', ''Wind Direction_Min''), (''4'', ''Wind Direction_Max'')]),
      (''13'', map_of [(''2'', ''Pressure_Avg''), (''3'', ''Pressure_Min''), (''4'', ''Pressure_Max'')]),
      (''10'', map_of [(''7'', ''Rainfall_Acc'')]),
      (''51'', map_of [(''2'', ''Soiltemperature10_Avg'')]),
      (''101'', map_of [(''2'', ''Soiltemperature20_Avg'')]),
      (''151'', map_of [(''2'', ''Soiltemperature50_Avg'')]),
      (''201'', map_of [(''2'', ''Soiltemperature100_Avg'')])]"

definition requiredMeasurements :: "string list" where
  "requiredMeasurements =
     [''Temperature_Avg'', ''Humidity_Avg'', ''Windspeed_Avg'', ''Wind Direction_Avg'',
      ''Pressure_Avg'', ''Rainfall_Acc'', ''Windspeed_Max'', ''Soiltemperature10_Avg'',
      ''Soiltemperature20_Avg'', ''Soiltemperature50_Avg'', ''Soiltemperature100_Avg'']"

text \<open>
  The name a (measurementID, processingID) pair resolves to in the loop body: the
  variable \<^verbatim>\<open>measurementName\<close>, which stays empty unless both lookups succeed.
\<close>

definition measurementName :: "string \<Rightarrow> string \<Rightarrow> string" where
  "measurementName measurementID processingID =
     (case measurementMap measurementID of
        None \<Rightarrow> []
      | Some processingMap \<Rightarrow>
          (case processingMap processingID of None \<Rightarrow> [] | Some name \<Rightarrow> name))"

text \<open>
  The loop \<^verbatim>\<open>for i := 8; i < len(fields)-1; i += 3\<close> of \<^verbatim>\<open>parseRow\<close>, from index \<open>i\<close> with
  the map built so far. Every slice access goes through \<^const>\<open>index\<close>, so an access out
  of range would show as a \<^const>\<open>Panic\<close>.
\<close>

function parseRow_loop :: "string list \<Rightarrow> nat \<Rightarrow> (string \<rightharpoonup> string) \<Rightarrow> (string \<rightharpoonup> string) res" where
  "parseRow_loop flds i values =
     (if int i < int (length flds) - 1 then
        bind_res (index flds i) (\<lambda>measurementID.
        bind_res (index flds (i + 1)) (\<lambda>processingID.
          let name = measurementName measurementID processingID in
          if name \<noteq> [] \<and> i + 2 < length flds then
            bind_res (index flds (i + 2)) (\<lambda>v.
              let value = (if v = ''*'' then [] else v) in
              parseRow_loop flds (i + 3) (values(name \<mapsto> value)))
          else parseRow_loop flds (i + 3) values))
      else Ret values)"
  by pat_completeness auto
termination
  by (relation "measure (\<lambda>(flds, i, values). length flds - i)") auto

declare parseRow_loop.simps [simp del]

text \<open>
  \<^verbatim>\<open>parseRow(line, cutoff)\<close>. The result is the Go pair (Record, error) as a sum: \<open>Inl\<close>
  the error, \<open>Inr\<close> the record returned with a nil error.
\<close>

definition parseRow :: "(string \<Rightarrow> Time option) \<Rightarrow> string \<Rightarrow> Time \<Rightarrow> (error + Record) res" where
  "parseRow timeParse line cutoff =
     (let flds = Split line CHR '','' in
      if length flds < 7 then Ret (Inl (InvalidRow line))
      else
        bind_res (index flds 1) (\<lambda>f1.
        bind_res (index flds 2) (\<lambda>f2.
        bind_res (index flds 3) (\<lambda>f3.
        bind_res (index flds 4) (\<lambda>f4.
        bind_res (index flds 5) (\<lambda>f5.
        bind_res (index flds 6) (\<lambda>f6.
        bind_res (index flds 7) (\<lambda>year.
          let stationID = TrimLeft f1 ''0'';
              hour = zeroPad f2;
              minute = zeroPad f3;
              second = zeroPad f4;
              day = zeroPad f5;
              month = zeroPad f6;
              timestampStr = year @ ''-'' @ month @ ''-'' @ day @ ''T'' @ hour @ '':'' @ minute @ '':'' @ second
          in
            (case timeParse timestampStr of
               None \<Rightarrow> Ret (Inl (InvalidTimestamp timestampStr))
             | Some recordTime \<Rightarrow>
                 if Before recordTime cutoff
                 then Ret (Inr \<lparr>StationID = [], Timestamp = [], Values = Map.empty\<rparr>)
                 else
                   bind_res (parseRow_loop flds 8 Map.empty) (\<lambda>values.
                     Ret (Inr \<lparr>StationID = stationID, Timestamp = timestampStr, Values = values\<rparr>)))))))))))"

subsection \<open>The revision without a cutoff: tables and row parser\<close>

definition measurementMap_plain :: "string \<rightharpoonup> (string \<rightharpoonup> string)" where
  "measurementMap_plain = map_of
     [(''1'', map_of [(''2'', ''Temperature_Avg''), (''3'', ''Temperature_Min''), (''4'', ''Temperature_Max'')]),
      (''2'', map_of [(''2'', ''Humidity_Avg''), (''3'', ''Humidity_Min''), (''4'', ''Humidity_Max'')]),
      (''9'', map_of [(''2'', ''Windspeed_Avg''), (''3'', ''Windspeed_Min''), (''4'', ''Windspeed_Max'')]),
      (''4'', map_of [(''2'', ''Wind Direction_Avg''), (''3'', ''Wind Direction_Min''), (''4'', ''Wind Direction_Max'')]),
      (''13'', map_of [(''2'', ''Pressure_Avg''), (''3'', ''Pressure_Min''), (''4'', ''Pressure_Max'')])]"

definition requiredMeasurements_plain :: "string list" where
  "requiredMeasurements_plain =
     [''Temperature_Avg'', ''Humidity_Avg'', ''Windspeed_Avg'', ''Wind Direction_Avg'', ''Pressure_Avg'']"

definition measurementName_plain :: "string \<Rightarrow> string \<Rightarrow> string" where
  "measurementName_plain measurementID processingID =
     (case measurementMap_plain measurementID of
        None \<Rightarrow> []
      | Some processingMap \<Rightarrow>
          (case processingMap processingID of None \<Rightarrow> [] | Some name \<Rightarrow> name))"

function parseRow_plain_loop :: "string list \<Rightarrow> nat \<Rightarrow> (string \<rightharpoonup> string) \<Rightarrow> (string \<rightharpoonup> string) res" where
  "parseRow_plain_loop flds i values =
     (if int i < int (length flds) - 1 then
        bind_res (index flds i) (\<lambda>measurementID.
        bind_res (index flds (i + 1)) (\<lambda>processingID.
          let name = measurementName_plain measurementID processingID in
          if name \<noteq> [] \<and> i + 2 < length flds then
            bind_res (index flds (i + 2)) (\<lambda>v.
              parseRow_plain_loop flds (i + 3) (values(name \<mapsto> v)))
          else parseRow_plain_loop flds (i + 3) values))
      else Ret values)"
  by pat_completeness auto
termination
  by (relation "measure (\<lambda>(flds, i, values). length flds - i)") auto

declare parseRow_plain_loop.simps [simp del]

definition parseRow_plain :: "string \<Rightarrow> (error + Record) res" where
  "parseRow_plain line =
     (let flds = Split line CHR '','' in
      if length flds < 7 then Ret (Inl (InvalidRow line))
      else
        bind_res (index flds 1) (\<lambda>f1.
        bind_res (index flds 2) (\<lambda>f2.
        bind_res (index flds 3) (\<lambda>f3.
        bind_res (index flds 4) (\<lambda>f4.
        bind_res (index flds 5) (\<lambda>f5.
        bind_res (index flds 6) (\<lambda>f6.
        bind_res (index flds 7) (\<lambda>year.
          let stationID = TrimLeft f1 ''0'';
              hour = zeroPad f2;
              minute = zeroPad f3;
              second = zeroPad f4;
              day = zeroPad f5;
              month = zeroPad f6;
              timestamp = year @ ''-'' @ month @ ''-'' @ day @ ''T'' @ hour @ '':'' @ minute @ '':'' @ second
          in
            bind_res (parseRow_plain_loop flds 8 Map.empty) (\<lambda>values.
              Ret (Inr \<lparr>StationID = stationID, Timestamp = timestamp, Values = values\<rparr>))))))))))"

subsection \<open>Files, output and the file processor\<close>

text \<open>
  What the converter does to the outside world, as explicit state: the rows handed to
  \<^verbatim>\<open>writer.Write\<close> (the CSV file, once flushed) and the messages printed with
  \<^verbatim>\<open>fmt.Printf\<close>, both in order. The field \<open>parsed\<close> is a history variable: the lines on
  which the row parser was called, in order.
\<close>

record World =
  written :: "string list list"
  stdout :: "string list"
  parsed :: "string list"

text \<open>
  An input file, as the file processor meets it: the error of \<^verbatim>\<open>os.Open\<close> if it fails,
  the lines \<^verbatim>\<open>scanner.Scan\<close> delivers before it stops, and the error \<^verbatim>\<open>scanner.Err\<close>
  reports after that, if any.
\<close>

record File =
  filePath :: string
  openErr :: "string option"
  scanned :: "string list"
  scanErr :: "string option"

definition newline :: string where
  "newline = [CHR 0x0A]"

definition printf :: "string \<Rightarrow> World \<Rightarrow> World" where
  "printf msg w = w\<lparr>stdout := stdout w @ [msg]\<rparr>"

definition Write :: "string list \<Rightarrow> World \<Rightarrow> World" where
  "Write row w = w\<lparr>written := written w @ [row]\<rparr>"

definition called :: "string \<Rightarrow> World \<Rightarrow> World" where
  "called line w = w\<lparr>parsed := parsed w @ [line]\<rparr>"

text \<open>
  The loop \<^verbatim>\<open>for scanner.Scan()\<close> of \<^verbatim>\<open>processFile\<close> in the recency-filtering revision,
  over the lines still to come. A panic of the row parser ends the program.
\<close>

fun processFile_scan :: "(string \<Rightarrow> Time option) \<Rightarrow> Time \<Rightarrow> string list \<Rightarrow> World \<Rightarrow> unit res \<times> World" where
  "processFile_scan timeParse cutoff [] w = (Ret (), w)"
| "processFile_scan timeParse cutoff (line # rest) w =
     (if \<not> HasPrefix line ''S,'' then processFile_scan timeParse cutoff rest w
      else
        (case parseRow timeParse line cutoff of
           Panic i n \<Rightarrow> (Panic i n, called line w)
         | Ret (Inl err) \<Rightarrow>
             processFile_scan timeParse cutoff rest
               (printf (''Skipping line due to error: '' @ Error err @ newline) (called line w))
         | Ret (Inr record) \<Rightarrow>
             if Timestamp record = [] then processFile_scan timeParse cutoff rest (called line w)
             else
               processFile_scan timeParse cutoff rest
                 (Write ([StationID record, Timestamp record]
                          @ map (lookup (Values record)) requiredMeasurements)
                    (called line w))))"

text \<open>
  \<^verbatim>\<open>processFile(filePath, writer, writeHeader, cutoff)\<close> of the recency-filtering revision.
  It returns the Go error (\<open>None\<close> for nil). The parameter \<^verbatim>\<open>writeHeader\<close> is not read
  anywhere in its body.
\<close>

definition processFile :: "(string \<Rightarrow> Time option) \<Rightarrow> File \<Rightarrow> bool \<Rightarrow> Time \<Rightarrow> World \<Rightarrow> error option res \<times> World" where
  "processFile timeParse file writeHeader cutoff w =
     (case openErr file of
        Some msg \<Rightarrow> (Ret (Some (CannotOpen (filePath file) msg)), w)
      | None \<Rightarrow>
          (case processFile_scan timeParse cutoff (scanned file) w of
             (Panic i n, w') \<Rightarrow> (Panic i n, w')
           | (Ret u, w') \<Rightarrow>
               (case scanErr file of
                  Some msg \<Rightarrow> (Ret (Some (ErrorReading (filePath file) msg)), w')
                | None \<Rightarrow> (Ret None, w'))))"

text \<open>The same two for the revision without a cutoff, which writes the header.\<close>

fun processFile_plain_scan :: "string list \<Rightarrow> World \<Rightarrow> unit res \<times> World" where
  "processFile_plain_scan [] w = (Ret (), w)"
| "processFile_plain_scan (line # rest) w =
     (if \<not> HasPrefix line ''S,'' then processFile_plain_scan rest w
      else
        (case parseRow_plain line of
           Panic i n \<Rightarrow> (Panic i n, called line w)
         | Ret (Inl err) \<Rightarrow>
             processFile_plain_scan rest
               (printf (''Skipping line due to error: '' @ Error err @ newline) (called line w))
         | Ret (Inr record) \<Rightarrow>
             processFile_plain_scan rest
               (Write ([StationID record, Timestamp record]
                        @ map (lookup (Values record)) requiredMeasurements_plain)
                  (called line w))))"

definition header_plain :: "string list" where
  "header_plain = [''station_id'', ''timestamp''] @ requiredMeasurements_plain"

definition processFile_plain :: "File \<Rightarrow> bool \<Rightarrow> World \<Rightarrow> error option res \<times> World" where
  "processFile_plain file writeHeader w =
     (case openErr file of
        Some msg \<Rightarrow> (Ret (Some (CannotOpen (filePath file) msg)), w)
      | None \<Rightarrow>
          (let w1 = (if writeHeader then Write header_plain w else w) in
           case processFile_plain_scan (scanned file) w1 of
             (Panic i n, w') \<Rightarrow> (Panic i n, w')
           | (Ret u, w') \<Rightarrow>
               (case scanErr file of
                  Some msg \<Rightarrow> (Ret (Some (ErrorReading (filePath file) msg)), w')
                | None \<Rightarrow> (Ret None, w'))))"

subsection \<open>The directory driver\<close>

text \<open>
  \<^verbatim>\<open>filepath.Walk\<close> calls the closure of \<^verbatim>\<open>main\<close> once per entry of the tree, in order,
  and stops at the first call that returns an error. An entry is one such call: with an
  error (the closure returns "cannot access"), for a directory, or for a file with its
  name \<^verbatim>\<open>info.Name()\<close>. The variable \<^verbatim>\<open>writeHeader\<close> that the closure captures is the
  Boolean argument.
\<close>

datatype entry =
    WalkError string string
  | Directory string
  | Regular string File

fun walk :: "(string \<Rightarrow> Time option) \<Rightarrow> Time \<Rightarrow> entry list \<Rightarrow> bool \<Rightarrow> World \<Rightarrow> error option res \<times> World" where
  "walk timeParse cutoff [] writeHeader w = (Ret None, w)"
| "walk timeParse cutoff (WalkError path msg # es) writeHeader w = (Ret (Some (CannotAccess path msg)), w)"
| "walk timeParse cutoff (Directory path # es) writeHeader w = walk timeParse cutoff es writeHeader w"
| "walk timeParse cutoff (Regular name file # es) writeHeader w =
     (if HasSuffix name ''.txt'' then
        (case processFile timeParse file writeHeader cutoff
                (printf (''Processing file: '' @ filePath file @ newline) w) of
           (Panic i n, w') \<Rightarrow> (Panic i n, w')
         | (Ret (Some err), w') \<Rightarrow>
             walk timeParse cutoff es writeHeader
               (printf (''Error processing file '' @ filePath file @ '': '' @ Error err @ newline) w')
         | (Ret None, w') \<Rightarrow> walk timeParse cutoff es False w')
      else walk timeParse cutoff es writeHeader w)"

fun walk_plain :: "entry list \<Rightarrow> bool \<Rightarrow> World \<Rightarrow> error option res \<times> World" where
  "walk_plain [] writeHeader w = (Ret None, w)"
| "walk_plain (WalkError path msg # es) writeHeader w = (Ret (Some (CannotAccess path msg)), w)"
| "walk_plain (Directory path # es) writeHeader w = walk_plain es writeHeader w"
| "walk_plain (Regular name file # es) writeHeader w =
     (if HasSuffix name ''.txt'' then
        (case processFile_plain file writeHeader
                (printf (''Processing file: '' @ filePath file @ newline) w) of
           (Panic i n, w') \<Rightarrow> (Panic i n, w')
         | (Ret (Some err), w') \<Rightarrow>
             walk_plain es writeHeader
               (printf (''Error processing file '' @ filePath file @ '': '' @ Error err @ newline) w')
         | (Ret None, w') \<Rightarrow> walk_plain es False w')
      else walk_plain es writeHeader w)"

text \<open>
  A run of the converter, from the point where the output file is open: the walk starts
  with \<^verbatim>\<open>writeHeader := true\<close> and an empty output, and an error of the walk is printed.
  The cutoff is \<^verbatim>\<open>time.Now().AddDate(0, 0, -days)\<close>, a parameter here.
\<close>

definition start :: World where
  "start = \<lparr>written = [], stdout = [], parsed = []\<rparr>"

definition run :: "(string \<Rightarrow> Time option) \<Rightarrow> Time \<Rightarrow> entry list \<Rightarrow> unit res \<times> World" where
  "run timeParse cutoff entries =
     (case walk timeParse cutoff entries True start of
        (Panic i n, w) \<Rightarrow> (Panic i n, w)
      | (Ret (Some err), w) \<Rightarrow> (Ret (), printf (''Error walking directory: '' @ Error err @ newline) w)
      | (Ret None, w) \<Rightarrow> (Ret (), w))"

definition run_plain :: "entry list \<Rightarrow> unit res \<times> World" where
  "run_plain entries =
     (case walk_plain entries True start of
        (Panic i n, w) \<Rightarrow> (Panic i n, w)
      | (Ret (Some err), w) \<Rightarrow> (Ret (), printf (''Error walking directory: '' @ Error err @ newline) w)
      | (Ret None, w) \<Rightarrow> (Ret (), w))"

text \<open>
  An entry the walk passes without opening a file: a directory, a file whose name does
  not end in \<^verbatim>\<open>.txt\<close>, or a file that \<^verbatim>\<open>os.Open\<close> refuses.
\<close>

fun passed :: "entry \<Rightarrow> bool" where
  "passed (WalkError path msg) = False"
| "passed (Directory path) = True"
| "passed (Regular name file) = (\<not> HasSuffix name ''.txt'' \<or> openErr file \<noteq> None)"

section \<open>Properties\<close>

subsection \<open>Splitting and indexing\<close>

lemma Split_Nil [simp]: "Split [] sep = [[]]"
  by (simp add: Split.simps)

lemma Split_ne [simp]: "Split s sep \<noteq> []"
  by (subst Split.simps) (simp split: list.split)

lemma Split_sep: "Split (sep # cs) sep = [] # Split cs sep"
  by (subst Split.simps) simp

lemma Split_other:
  assumes "c \<noteq> sep"
  shows "Split (c # cs) sep = (case Split cs sep of [] \<Rightarrow> [[c]] | f # fs \<Rightarrow> (c # f) # fs)"
proof (cases "dropWhile (\<lambda>c. c \<noteq> sep) cs")
  case Nil
  show ?thesis
    by (subst Split.simps, subst (2) Split.simps) (simp add: Nil assms)
next
  case (Cons x rest)
  show ?thesis
    by (subst Split.simps, subst (2) Split.simps) (simp add: Cons assms)
qed

text \<open>The split of a string, byte by byte: the form that evaluates a literal line.\<close>

lemma Split_Cons:
  "Split (c # cs) sep =
     (if c = sep then [] # Split cs sep
      else (case Split cs sep of [] \<Rightarrow> [[c]] | f # fs \<Rightarrow> (c # f) # fs))"
  by (simp add: Split_sep Split_other)

lemma index_in [simp]: "i < length xs \<Longrightarrow> index xs i = Ret (xs ! i)"
  by (simp add: index_def)

lemma index_out [simp]: "length xs \<le> i \<Longrightarrow> index xs i = Panic i (length xs)"
  by (simp add: index_def)

subsection \<open>zeroPad\<close>

text \<open>
  Claim C10. \<^verbatim>\<open>zeroPad\<close> returns a string of length 2 unchanged, \<open>05\<close> in particular, and
  applying it twice to a string of length at least 2 is the same as applying it once.
\<close>

theorem zeroPad_idempotent:
  "(length s = 2 \<longrightarrow> zeroPad s = s) \<and>
   (2 \<le> length s \<longrightarrow> zeroPad (zeroPad s) = zeroPad s) \<and>
   zeroPad ''05'' = ''05''"
  by (simp add: zeroPad_def)

theorem zeroPad_idempotent_witness:
  "length ''05'' = 2 \<and> zeroPad ''05'' = ''05'' \<and>
   2 \<le> length ''05'' \<and> zeroPad (zeroPad ''05'') = zeroPad ''05''"
  using zeroPad_idempotent [of "''05''"] by simp

text \<open>The second application never changes anything, whatever the length.\<close>

lemma zeroPad_twice: "zeroPad (zeroPad s) = zeroPad s"
  by (simp add: zeroPad_def)

subsection \<open>The field-count guard\<close>

text \<open>
  Claim C2. The line \<open>S,1,2,3,4,5,6\<close> has exactly 7 fields; the guard \<^verbatim>\<open>len(fields) < 7\<close>
  lets it through and the read of the year at index 7 is out of range: both row parsers
  panic with "index out of range [7] with length 7" and do not return the
  "invalid row" error.
\<close>

theorem parseRow_seven_fields_panic:
  "length (Split ''S,1,2,3,4,5,6'' CHR '','') = 7 \<and>
   parseRow timeParse ''S,1,2,3,4,5,6'' cutoff = Panic 7 7 \<and>
   parseRow_plain ''S,1,2,3,4,5,6'' = Panic 7 7 \<and>
   parseRow timeParse ''S,1,2,3,4,5,6'' cutoff \<noteq> Ret (Inl (InvalidRow ''S,1,2,3,4,5,6'')) \<and>
   parseRow_plain ''S,1,2,3,4,5,6'' \<noteq> Ret (Inl (InvalidRow ''S,1,2,3,4,5,6''))"
  by (simp add: parseRow_def parseRow_plain_def Split_Cons)

text \<open>The same holds for every line of exactly 7 fields.\<close>

lemma seven_fields_panic:
  assumes "length (Split line CHR '','') = 7"
  shows "parseRow timeParse line cutoff = Panic 7 7" and "parseRow_plain line = Panic 7 7"
  using assms by (simp_all add: parseRow_def parseRow_plain_def)

text \<open>
  Claim C3. A line of fewer than 7 fields makes both row parsers return the
  "invalid row" error, and the scan loop goes on to the next line having written no
  row: it has printed the message if the line starts with \<open>S,\<close>, and done nothing
  otherwise.
\<close>

theorem short_row_invalid:
  assumes "length (Split line CHR '','') < 7"
  shows "parseRow timeParse line cutoff = Ret (Inl (InvalidRow line)) \<and>
         parseRow_plain line = Ret (Inl (InvalidRow line)) \<and>
         processFile_scan timeParse cutoff (line # rest) w =
           processFile_scan timeParse cutoff rest
             (if HasPrefix line ''S,''
              then printf (''Skipping line due to error: invalid row: '' @ line @ newline) (called line w)
              else w) \<and>
         processFile_plain_scan (line # rest) w =
           processFile_plain_scan rest
             (if HasPrefix line ''S,''
              then printf (''Skipping line due to error: invalid row: '' @ line @ newline) (called line w)
              else w) \<and>
         written (printf (''Skipping line due to error: invalid row: '' @ line @ newline) (called line w))
           = written w \<and>
         written (snd (processFile_scan timeParse cutoff [line] w)) = written w \<and>
         written (snd (processFile_plain_scan [line] w)) = written w"
  using assms by (simp add: parseRow_def parseRow_plain_def printf_def called_def)

theorem short_row_invalid_witness:
  "length (Split ''S,7,12'' CHR '','') < 7 \<and>
   parseRow (\<lambda>s. None) ''S,7,12'' 0 = Ret (Inl (InvalidRow ''S,7,12'')) \<and>
   parseRow_plain ''S,7,12'' = Ret (Inl (InvalidRow ''S,7,12'')) \<and>
   written (snd (processFile_scan (\<lambda>s. None) 0 [''S,7,12''] start)) = [] \<and>
   written (snd (processFile_plain_scan [''S,7,12''] start)) = []"
  using short_row_invalid [of "''S,7,12''" "\<lambda>s. None" 0 "[]" start]
  by (simp add: Split_Cons start_def)

subsection \<open>The measurement loop\<close>

text \<open>
  One turn of the loop with the slice reads resolved: inside the loop condition the
  reads at \<open>i\<close> and \<open>i + 1\<close> are in range, and the read at \<open>i + 2\<close> happens only behind its
  guard.
\<close>

lemma parseRow_loop_step:
  "parseRow_loop flds i vals =
     (if i + 1 < length flds then
        (if measurementName (flds ! i) (flds ! (i + 1)) \<noteq> [] \<and> i + 2 < length flds
         then parseRow_loop flds (i + 3)
                (vals(measurementName (flds ! i) (flds ! (i + 1)) \<mapsto>
                   (if flds ! (i + 2) = ''*'' then [] else flds ! (i + 2))))
         else parseRow_loop flds (i + 3) vals)
      else Ret vals)"
  by (subst parseRow_loop.simps) (simp add: Let_def)

lemma parseRow_plain_loop_step:
  "parseRow_plain_loop flds i vals =
     (if i + 1 < length flds then
        (if measurementName_plain (flds ! i) (flds ! (i + 1)) \<noteq> [] \<and> i + 2 < length flds
         then parseRow_plain_loop flds (i + 3)
                (vals(measurementName_plain (flds ! i) (flds ! (i + 1)) \<mapsto> flds ! (i + 2)))
         else parseRow_plain_loop flds (i + 3) vals)
      else Ret vals)"
  by (subst parseRow_plain_loop.simps) (simp add: Let_def)

lemma parseRow_loop_total: "\<exists>m. parseRow_loop flds i vals = Ret m"
proof (induction "length flds - i" arbitrary: i vals rule: less_induct)
  case less
  show ?case
  proof (cases "i + 1 < length flds")
    case True
    then have "length flds - (i + 3) < length flds - i" by arith
    then have "\<exists>m. parseRow_loop flds (i + 3) v = Ret m" for v
      by (rule less)
    then show ?thesis
      by (subst parseRow_loop_step) (simp add: True)
  next
    case False
    then show ?thesis
      by (subst parseRow_loop_step) simp
  qed
qed

lemma parseRow_plain_loop_total: "\<exists>m. parseRow_plain_loop flds i vals = Ret m"
proof (induction "length flds - i" arbitrary: i vals rule: less_induct)
  case less
  show ?case
  proof (cases "i + 1 < length flds")
    case True
    then have "length flds - (i + 3) < length flds - i" by arith
    then have "\<exists>m. parseRow_plain_loop flds (i + 3) v = Ret m" for v
      by (rule less)
    then show ?thesis
      by (subst parseRow_plain_loop_step) (simp add: True)
  next
    case False
    then show ?thesis
      by (subst parseRow_plain_loop_step) simp
  qed
qed

lemma parseRow_loop_incomplete:
  assumes "length flds \<le> i + 2"
  shows "parseRow_loop flds i vals = Ret vals"
  using assms
  by (subst parseRow_loop_step, subst (2) parseRow_loop_step, subst parseRow_loop_step) simp

lemma parseRow_plain_loop_incomplete:
  assumes "length flds \<le> i + 2"
  shows "parseRow_plain_loop flds i vals = Ret vals"
  using assms
  by (subst parseRow_plain_loop_step, subst (2) parseRow_plain_loop_step, subst parseRow_plain_loop_step) simp

lemma parseRow_plain_total:
  assumes "8 \<le> length (Split line CHR '','')"
  shows "\<exists>values. parseRow_plain_loop (Split line CHR '','') 8 Map.empty = Ret values \<and>
          parseRow_plain line =
           Ret (Inr \<lparr>StationID = TrimLeft (Split line CHR '','' ! 1) ''0'',
                     Timestamp = Split line CHR '','' ! 7 @ ''-'' @ zeroPad (Split line CHR '','' ! 6)
                       @ ''-'' @ zeroPad (Split line CHR '','' ! 5) @ ''T'' @ zeroPad (Split line CHR '','' ! 2)
                       @ '':'' @ zeroPad (Split line CHR '','' ! 3) @ '':'' @ zeroPad (Split line CHR '','' ! 4),
                     Values = values\<rparr>)"
proof -
  obtain m where "parseRow_plain_loop (Split line CHR '','') 8 Map.empty = Ret m"
    using parseRow_plain_loop_total by blast
  with assms show ?thesis
    by (simp add: parseRow_plain_def Let_def)
qed

lemma parseRow_cases:
  assumes "8 \<le> length (Split line CHR '','')"
    and "ts = Split line CHR '','' ! 7 @ ''-'' @ zeroPad (Split line CHR '','' ! 6)
                       @ ''-'' @ zeroPad (Split line CHR '','' ! 5) @ ''T'' @ zeroPad (Split line CHR '','' ! 2)
                       @ '':'' @ zeroPad (Split line CHR '','' ! 3) @ '':'' @ zeroPad (Split line CHR '','' ! 4)"
  shows "\<exists>values. parseRow_loop (Split line CHR '','') 8 Map.empty = Ret values \<and>
          parseRow timeParse line cutoff =
           (case timeParse ts of
              None \<Rightarrow> Ret (Inl (InvalidTimestamp ts))
            | Some t \<Rightarrow>
                if t < cutoff then Ret (Inr \<lparr>StationID = [], Timestamp = [], Values = Map.empty\<rparr>)
                else Ret (Inr \<lparr>StationID = TrimLeft (Split line CHR '','' ! 1) ''0'',
                                Timestamp = ts, Values = values\<rparr>))"
proof -
  obtain m where "parseRow_loop (Split line CHR '','') 8 Map.empty = Ret m"
    using parseRow_loop_total by blast
  with assms show ?thesis
    by (simp add: parseRow_def Let_def Before_def split: option.split)
qed






text \<open>
  The row that \<^verbatim>\<open>processFile\<close> writes for a record: the cell of a required column is
  the record's value for it, the empty string when the name is unset.
\<close>

lemma row_cell:
  assumes "j < length requiredMeasurements"
  shows "([StationID r, Timestamp r] @ map (lookup (Values r)) requiredMeasurements) ! (2 + j) =
         lookup (Values r) (requiredMeasurements ! j)"
  using assms by simp

lemma row_cell_plain:
  assumes "j < length requiredMeasurements_plain"
  shows "([StationID r, Timestamp r] @ map (lookup (Values r)) requiredMeasurements_plain) ! (2 + j) =
         lookup (Values r) (requiredMeasurements_plain ! j)"
  using assms by simp

subsection \<open>Bounds of the loop, unknown identifiers\<close>

text \<open>
  Claim C9. The stride-3 loop never reads outside the field slice: from any index and
  any map it returns normally, in both revisions. A trailing group that lacks its
  processingID or its value (it starts at \<open>i\<close> with \<open>i < len \<le> i + 2\<close>) leaves the map as it
  was. Hence a line of at least 8 fields never makes a row parser panic, and the parser
  without a cutoff always returns a record for it.
\<close>

theorem loop_reads_in_bounds:
  "(\<exists>m. parseRow_loop flds i vals = Ret m) \<and>
   (\<exists>m. parseRow_plain_loop flds i vals = Ret m) \<and>
   (i < length flds \<and> length flds \<le> i + 2 \<longrightarrow>
      parseRow_loop flds i vals = Ret vals \<and> parseRow_plain_loop flds i vals = Ret vals) \<and>
   (8 \<le> length (Split line CHR '','') \<longrightarrow>
      (\<exists>r. parseRow_plain line = Ret (Inr r)) \<and>
      (\<forall>a b. parseRow timeParse line cutoff \<noteq> Panic a b))"
proof (intro conjI impI)
  show "\<exists>m. parseRow_loop flds i vals = Ret m" by (rule parseRow_loop_total)
  show "\<exists>m. parseRow_plain_loop flds i vals = Ret m" by (rule parseRow_plain_loop_total)
next
  assume "i < length flds \<and> length flds \<le> i + 2"
  then show "parseRow_loop flds i vals = Ret vals" by (simp add: parseRow_loop_incomplete)
next
  assume "i < length flds \<and> length flds \<le> i + 2"
  then show "parseRow_plain_loop flds i vals = Ret vals" by (simp add: parseRow_plain_loop_incomplete)
next
  assume "8 \<le> length (Split line CHR '','')"
  from parseRow_plain_total [OF this] show "\<exists>r. parseRow_plain line = Ret (Inr r)" by blast
next
  assume len: "8 \<le> length (Split line CHR '','')"
  from parseRow_cases [OF len refl, of timeParse cutoff]
  show "\<forall>a b. parseRow timeParse line cutoff \<noteq> Panic a b"
    by (auto split: option.splits if_splits)
qed

theorem loop_reads_in_bounds_witness:
  "11 < length (Split ''S,12,9,5,0,15,6,2023,1,2,21.5,9,2'' CHR '','') \<and>
   length (Split ''S,12,9,5,0,15,6,2023,1,2,21.5,9,2'' CHR '','') \<le> 11 + 2 \<and>
   parseRow_loop (Split ''S,12,9,5,0,15,6,2023,1,2,21.5,9,2'' CHR '','') 11 Map.empty = Ret Map.empty \<and>
   parseRow_plain_loop (Split ''S,12,9,5,0,15,6,2023,1,2,21.5,9,2'' CHR '','') 11 Map.empty = Ret Map.empty \<and>
   8 \<le> length (Split ''S,12,9,5,0,15,6,2023,1,2,21.5,9,2'' CHR '','') \<and>
   (\<exists>r. parseRow_plain ''S,12,9,5,0,15,6,2023,1,2,21.5,9,2'' = Ret (Inr r)) \<and>
   (\<forall>a b. parseRow (\<lambda>s. Some 1) ''S,12,9,5,0,15,6,2023,1,2,21.5,9,2'' 0 \<noteq> Panic a b)"
  using loop_reads_in_bounds [of "Split ''S,12,9,5,0,15,6,2023,1,2,21.5,9,2'' CHR '',''" 11 Map.empty
      "''S,12,9,5,0,15,6,2023,1,2,21.5,9,2''" "\<lambda>s. Some 1" 0]
  by (simp add: Split_Cons)



subsection \<open>The missing-data marker\<close>






subsection \<open>Station identifier, timestamp and the cutoff\<close>

text \<open>
  Claim C5. Every line that starts with \<open>S,0012,9,5,0,15,6,2023,1,2,21.5\<close> gives the
  station identifier \<open>12\<close> and the timestamp \<open>2023-06-15T09:05:00\<close>. The parser without a
  cutoff returns a record with exactly these two. The recency-filtering parser assembles
  the same timestamp and hands it to \<^verbatim>\<open>time.Parse\<close>; it returns the record with these
  two unless the timestamp is refused or lies before the cutoff.
\<close>

theorem example_line_station_and_timestamp:
  "(\<exists>vals. parseRow_plain (''S,0012,9,5,0,15,6,2023,1,2,21.5'' @ rest) =
       Ret (Inr \<lparr>StationID = ''12'', Timestamp = ''2023-06-15T09:05:00'', Values = vals\<rparr>)) \<and>
   (\<exists>vals. parseRow timeParse (''S,0012,9,5,0,15,6,2023,1,2,21.5'' @ rest) cutoff =
       (case timeParse ''2023-06-15T09:05:00'' of
          None \<Rightarrow> Ret (Inl (InvalidTimestamp ''2023-06-15T09:05:00''))
        | Some t \<Rightarrow>
            if Before t cutoff then Ret (Inr \<lparr>StationID = [], Timestamp = [], Values = Map.empty\<rparr>)
            else Ret (Inr \<lparr>StationID = ''12'', Timestamp = ''2023-06-15T09:05:00'', Values = vals\<rparr>)))"
proof -
  let ?L = "''S,0012,9,5,0,15,6,2023,1,2,21.5'' @ rest"
  obtain f fs where tail: "Split rest CHR '','' = f # fs"
    by (cases "Split rest CHR '',''") simp_all
  have split: "Split ?L CHR '','' =
      ''S'' # ''0012'' # ''9'' # ''5'' # ''0'' # ''15'' # ''6'' # ''2023'' # ''1'' # ''2'' # (''21.5'' @ f) # fs"
    by (simp add: Split_Cons tail)
  then have len: "8 \<le> length (Split ?L CHR '','')" by simp
  note split = split [simplified]
  from parseRow_plain_total [OF len] have 1: "\<exists>vals. parseRow_plain ?L =
       Ret (Inr \<lparr>StationID = ''12'', Timestamp = ''2023-06-15T09:05:00'', Values = vals\<rparr>)"
    by (auto simp: split zeroPad_def TrimLeft_def)
  have ts: "''2023-06-15T09:05:00'' = Split ?L CHR '','' ! 7 @ ''-'' @ zeroPad (Split ?L CHR '','' ! 6)
      @ ''-'' @ zeroPad (Split ?L CHR '','' ! 5) @ ''T'' @ zeroPad (Split ?L CHR '','' ! 2)
      @ '':'' @ zeroPad (Split ?L CHR '','' ! 3) @ '':'' @ zeroPad (Split ?L CHR '','' ! 4)"
    by (simp add: split zeroPad_def)
  have st: "TrimLeft (Split ?L CHR '','' ! 1) ''0'' = ''12''"
    by (simp add: split TrimLeft_def)
  from parseRow_cases [OF len ts, of timeParse cutoff]
  have 2: "\<exists>vals. parseRow timeParse ?L cutoff =
       (case timeParse ''2023-06-15T09:05:00'' of
          None \<Rightarrow> Ret (Inl (InvalidTimestamp ''2023-06-15T09:05:00''))
        | Some t \<Rightarrow>
            if Before t cutoff then Ret (Inr \<lparr>StationID = [], Timestamp = [], Values = Map.empty\<rparr>)
            else Ret (Inr \<lparr>StationID = ''12'', Timestamp = ''2023-06-15T09:05:00'', Values = vals\<rparr>))"
    unfolding st Before_def by blast
  from 1 2 show ?thesis by simp
qed

text \<open>The line with nothing after the first triple, evaluated.\<close>

lemma example_line_plain_row:
  "processFile_plain_scan [''S,0012,9,5,0,15,6,2023,1,2,21.5''] start =
     (Ret (), \<lparr>written = [[''12'', ''2023-06-15T09:05:00'', ''21.5'', [], [], [], []]],
               stdout = [], parsed = [''S,0012,9,5,0,15,6,2023,1,2,21.5'']\<rparr>)"
  by (simp add: parseRow_plain_def Split_Cons zeroPad_def TrimLeft_def parseRow_plain_loop_step
      measurementName_plain_def measurementMap_plain_def lookup_def requiredMeasurements_plain_def
      Write_def called_def start_def HasPrefix_def)

text \<open>
  Claim C4. In the recency-filtering revision, for a line of at least 8 fields with the
  assembled timestamp \<open>ts\<close>: if \<^verbatim>\<open>time.Parse\<close> refuses \<open>ts\<close>, the parser returns the
  "invalid timestamp" error (and the scan loop prints it and goes on); if \<open>ts\<close> parses
  to an instant strictly before the cutoff, the parser returns the record with the empty
  timestamp and no error, and the scan loop goes on to the next line having written no
  row and printed nothing.
\<close>

theorem invalid_timestamp_and_too_old:
  assumes "flds = Split line CHR '',''" and "8 \<le> length flds"
    and "ts = flds ! 7 @ ''-'' @ zeroPad (flds ! 6) @ ''-'' @ zeroPad (flds ! 5) @ ''T''
                @ zeroPad (flds ! 2) @ '':'' @ zeroPad (flds ! 3) @ '':'' @ zeroPad (flds ! 4)"
  shows
    "(timeParse ts = None \<longrightarrow>
        parseRow timeParse line cutoff = Ret (Inl (InvalidTimestamp ts)) \<and>
        Error (InvalidTimestamp ts) = ''invalid timestamp: '' @ ts \<and>
        (HasPrefix line ''S,'' \<longrightarrow>
           processFile_scan timeParse cutoff (line # rest) w =
           processFile_scan timeParse cutoff rest
             (printf (''Skipping line due to error: invalid timestamp: '' @ ts @ newline) (called line w)))) \<and>
     (\<forall>t. timeParse ts = Some t \<and> Before t cutoff \<longrightarrow>
        parseRow timeParse line cutoff = Ret (Inr \<lparr>StationID = [], Timestamp = [], Values = Map.empty\<rparr>) \<and>
        (HasPrefix line ''S,'' \<longrightarrow>
           processFile_scan timeParse cutoff (line # rest) w =
           processFile_scan timeParse cutoff rest (called line w)) \<and>
        written (called line w) = written w \<and> stdout (called line w) = stdout w)"
proof -
  from assms have len: "8 \<le> length (Split line CHR '','')" by simp
  from assms have ts: "ts = Split line CHR '','' ! 7 @ ''-'' @ zeroPad (Split line CHR '','' ! 6)
      @ ''-'' @ zeroPad (Split line CHR '','' ! 5) @ ''T'' @ zeroPad (Split line CHR '','' ! 2)
      @ '':'' @ zeroPad (Split line CHR '','' ! 3) @ '':'' @ zeroPad (Split line CHR '','' ! 4)"
    by simp
  from parseRow_cases [OF len ts, of timeParse cutoff]
  obtain vals where p: "parseRow timeParse line cutoff =
           (case timeParse ts of
              None \<Rightarrow> Ret (Inl (InvalidTimestamp ts))
            | Some t \<Rightarrow>
                if t < cutoff then Ret (Inr \<lparr>StationID = [], Timestamp = [], Values = Map.empty\<rparr>)
                else Ret (Inr \<lparr>StationID = TrimLeft (Split line CHR '','' ! 1) ''0'',
                                Timestamp = ts, Values = vals\<rparr>))"
    by blast
  show ?thesis
    by (simp add: p Before_def called_def)
qed

theorem invalid_timestamp_and_too_old_witness:
  "8 \<le> length (Split ''S,12,9,5,0,15,6,2023,1,2,21.5'' CHR '','') \<and>
   parseRow (\<lambda>s. None) ''S,12,9,5,0,15,6,2023,1,2,21.5'' 10 =
     Ret (Inl (InvalidTimestamp ''2023-06-15T09:05:00'')) \<and>
   map_of [(''2023-06-15T09:05:00'', 5)] ''2023-06-15T09:05:00'' = Some 5 \<and> Before 5 10 \<and>
   parseRow (map_of [(''2023-06-15T09:05:00'', 5)]) ''S,12,9,5,0,15,6,2023,1,2,21.5'' 10 =
     Ret (Inr \<lparr>StationID = [], Timestamp = [], Values = Map.empty\<rparr>) \<and>
   HasPrefix ''S,12,9,5,0,15,6,2023,1,2,21.5'' ''S,'' \<and>
   processFile_scan (map_of [(''2023-06-15T09:05:00'', 5)]) 10 [''S,12,9,5,0,15,6,2023,1,2,21.5''] start =
     (Ret (), called ''S,12,9,5,0,15,6,2023,1,2,21.5'' start) \<and>
   written (called ''S,12,9,5,0,15,6,2023,1,2,21.5'' start) = [] \<and>
   stdout (called ''S,12,9,5,0,15,6,2023,1,2,21.5'' start) = []"
proof -
  let ?L = "''S,12,9,5,0,15,6,2023,1,2,21.5''"
  let ?tp = "map_of [(''2023-06-15T09:05:00'', 5::int)]"
  have split: "Split ?L CHR '','' =
      [''S'', ''12'', ''9'', ''5'', ''0'', ''15'', ''6'', ''2023'', ''1'', ''2'', ''21.5'']"
    by (simp add: Split_Cons)
  have len: "8 \<le> length (Split ?L CHR '','')" by (simp add: split)
  have ts: "''2023-06-15T09:05:00'' = Split ?L CHR '','' ! 7 @ ''-'' @ zeroPad (Split ?L CHR '','' ! 6)
      @ ''-'' @ zeroPad (Split ?L CHR '','' ! 5) @ ''T'' @ zeroPad (Split ?L CHR '','' ! 2)
      @ '':'' @ zeroPad (Split ?L CHR '','' ! 3) @ '':'' @ zeroPad (Split ?L CHR '','' ! 4)"
    by (simp add: split zeroPad_def)
  have pre: "HasPrefix ?L ''S,''" by (simp add: HasPrefix_def)
  have old: "?tp ''2023-06-15T09:05:00'' = Some 5 \<and> Before 5 10" by (simp add: Before_def)
  from invalid_timestamp_and_too_old [OF refl len ts, of "\<lambda>s. None" 10 "[]" start]
  have a: "parseRow (\<lambda>s. None) ?L 10 = Ret (Inl (InvalidTimestamp ''2023-06-15T09:05:00''))"
    by simp
  from invalid_timestamp_and_too_old [OF refl len ts, of ?tp 10 "[]" start] old pre
  have b: "parseRow ?tp ?L 10 = Ret (Inr \<lparr>StationID = [], Timestamp = [], Values = Map.empty\<rparr>) \<and>
           processFile_scan ?tp 10 [?L] start = (Ret (), called ?L start) \<and>
           written (called ?L start) = written start \<and> stdout (called ?L start) = stdout start"
    by simp
  from len a b old pre show ?thesis by (simp add: start_def)
qed

subsection \<open>The scan loop and the prefix check\<close>

lemma parsed_printf [simp]: "parsed (printf msg w) = parsed w"
  by (simp add: printf_def)

lemma parsed_Write [simp]: "parsed (Write row w) = parsed w"
  by (simp add: Write_def)

lemma parsed_called [simp]: "parsed (called line w) = parsed w @ [line]"
  by (simp add: called_def)

lemma written_printf [simp]: "written (printf msg w) = written w"
  by (simp add: printf_def)

lemma written_Write [simp]: "written (Write row w) = written w @ [row]"
  by (simp add: Write_def)

lemma written_called [simp]: "written (called line w) = written w"
  by (simp add: called_def)

text \<open>The lines on which a scan calls the row parser all start with \<open>S,\<close>.\<close>

lemma processFile_scan_parsed:
  "\<exists>ps. parsed (snd (processFile_scan timeParse cutoff ls w)) = parsed w @ ps \<and>
        (\<forall>l\<in>set ps. l \<in> set ls \<and> HasPrefix l ''S,'')"
proof (induction ls arbitrary: w)
  case Nil
  show ?case by simp
next
  case (Cons line rest)
  show ?case
  proof (cases "HasPrefix line ''S,''")
    case False
    with Cons [of w] show ?thesis by auto
  next
    case True
    have step: "\<exists>ps. parsed (snd (processFile_scan timeParse cutoff rest w')) = parsed w @ ps \<and>
        (\<forall>l\<in>set ps. l \<in> set (line # rest) \<and> HasPrefix l ''S,'')"
      if "parsed w' = parsed w @ [line]" for w'
    proof -
      from Cons [of w'] obtain ps where
        "parsed (snd (processFile_scan timeParse cutoff rest w')) = parsed w' @ ps"
        "\<forall>l\<in>set ps. l \<in> set rest \<and> HasPrefix l ''S,''" by blast
      with that True have
        "parsed (snd (processFile_scan timeParse cutoff rest w')) = parsed w @ (line # ps) \<and>
         (\<forall>l\<in>set (line # ps). l \<in> set (line # rest) \<and> HasPrefix l ''S,'')"
        by simp
      then show ?thesis by blast
    qed
    show ?thesis
    proof (cases "parseRow timeParse line cutoff")
      case (Panic i n)
      with True show ?thesis by simp
    next
      case (Ret res)
      show ?thesis
      proof (cases res)
        case (Inl err)
        with Ret True step show ?thesis by simp
      next
        case (Inr r)
        with Ret True step show ?thesis by simp
      qed
    qed
  qed
qed

lemma processFile_plain_scan_parsed:
  "\<exists>ps. parsed (snd (processFile_plain_scan ls w)) = parsed w @ ps \<and>
        (\<forall>l\<in>set ps. l \<in> set ls \<and> HasPrefix l ''S,'')"
proof (induction ls arbitrary: w)
  case Nil
  show ?case by simp
next
  case (Cons line rest)
  show ?case
  proof (cases "HasPrefix line ''S,''")
    case False
    with Cons [of w] show ?thesis by auto
  next
    case True
    have step: "\<exists>ps. parsed (snd (processFile_plain_scan rest w')) = parsed w @ ps \<and>
        (\<forall>l\<in>set ps. l \<in> set (line # rest) \<and> HasPrefix l ''S,'')"
      if "parsed w' = parsed w @ [line]" for w'
    proof -
      from Cons [of w'] obtain ps where
        "parsed (snd (processFile_plain_scan rest w')) = parsed w' @ ps"
        "\<forall>l\<in>set ps. l \<in> set rest \<and> HasPrefix l ''S,''" by blast
      with that True have
        "parsed (snd (processFile_plain_scan rest w')) = parsed w @ (line # ps) \<and>
         (\<forall>l\<in>set (line # ps). l \<in> set (line # rest) \<and> HasPrefix l ''S,'')"
        by simp
      then show ?thesis by blast
    qed
    show ?thesis
    proof (cases "parseRow_plain line")
      case (Panic i n)
      with True show ?thesis by simp
    next
      case (Ret res)
      show ?thesis
      proof (cases res)
        case (Inl err)
        with Ret True step show ?thesis by simp
      next
        case (Inr r)
        with Ret True step show ?thesis by simp
      qed
    qed
  qed
qed

text \<open>
  Claim C8. A line that does not start with \<open>S,\<close> is passed over by the scan loop of
  either revision: the loop continues from the same state, so there is no row, no
  message, no error and no call of the row parser for it. Over a whole file, the lines
  on which \<^verbatim>\<open>processFile\<close> calls the row parser are lines of the file that start with
  \<open>S,\<close>.
\<close>

theorem unprefixed_line_not_parsed:
  "(\<not> HasPrefix line ''S,'' \<longrightarrow>
      processFile_scan timeParse cutoff (line # rest) w = processFile_scan timeParse cutoff rest w \<and>
      processFile_plain_scan (line # rest) w = processFile_plain_scan rest w \<and>
      processFile_scan timeParse cutoff [line] w = (Ret (), w) \<and>
      processFile_plain_scan [line] w = (Ret (), w)) \<and>
   (\<exists>ps. parsed (snd (processFile timeParse file writeHeader cutoff w)) = parsed w @ ps \<and>
         (\<forall>l\<in>set ps. l \<in> set (scanned file) \<and> HasPrefix l ''S,'')) \<and>
   (\<exists>ps. parsed (snd (processFile_plain file writeHeader w)) = parsed w @ ps \<and>
         (\<forall>l\<in>set ps. l \<in> set (scanned file) \<and> HasPrefix l ''S,''))"
proof (intro conjI impI)
  show "\<exists>ps. parsed (snd (processFile timeParse file writeHeader cutoff w)) = parsed w @ ps \<and>
         (\<forall>l\<in>set ps. l \<in> set (scanned file) \<and> HasPrefix l ''S,'')"
    using processFile_scan_parsed [of timeParse cutoff "scanned file" w]
    by (auto simp: processFile_def split: option.split prod.split res.split)
  show "\<exists>ps. parsed (snd (processFile_plain file writeHeader w)) = parsed w @ ps \<and>
         (\<forall>l\<in>set ps. l \<in> set (scanned file) \<and> HasPrefix l ''S,'')"
    using processFile_plain_scan_parsed [of "scanned file" w]
      processFile_plain_scan_parsed [of "scanned file" "Write header_plain w"]
    by (auto simp: processFile_plain_def split: option.split prod.split res.split)
qed simp_all

theorem unprefixed_line_not_parsed_witness:
  "\<not> HasPrefix ''X,1,2,3,4,5,6'' ''S,'' \<and>
   parseRow_plain ''X,1,2,3,4,5,6'' = Panic 7 7 \<and>
   processFile_scan (\<lambda>s. None) 0 [''X,1,2,3,4,5,6''] start = (Ret (), start) \<and>
   processFile_plain_scan [''X,1,2,3,4,5,6''] start = (Ret (), start) \<and>
   processFile_plain_scan [''X,1,2,3,4,5,6'', ''S,7,12''] start = processFile_plain_scan [''S,7,12''] start"
  using unprefixed_line_not_parsed [of "''X,1,2,3,4,5,6''" "\<lambda>s. None" 0 "[]" start]
    unprefixed_line_not_parsed [of "''X,1,2,3,4,5,6''" "\<lambda>s. None" 0 "[''S,7,12'']" start]
  by (simp add: HasPrefix_def parseRow_plain_def Split_Cons)

subsection \<open>The header row\<close>

text \<open>
  A data row is never the header: the timestamp of a record the parser returns contains
  a hyphen, and the header's second field is \<open>timestamp\<close>.
\<close>

lemma parseRow_plain_Inr_timestamp:
  assumes "parseRow_plain line = Ret (Inr r)"
  shows "CHR ''-'' \<in> set (Timestamp r)"
proof -
  have "\<not> length (Split line CHR '','') < 7"
    using assms by (auto simp: parseRow_plain_def)
  moreover have "length (Split line CHR '','') \<noteq> 7"
    using assms seven_fields_panic(2) [of line] by auto
  ultimately have "8 \<le> length (Split line CHR '','')" by arith
  from parseRow_plain_total [OF this] assms show ?thesis by auto
qed

lemma data_row_not_header_plain:
  assumes "parseRow_plain line = Ret (Inr r)"
  shows "[StationID r, Timestamp r] @ map (lookup (Values r)) requiredMeasurements_plain \<noteq> header_plain"
proof
  assume "[StationID r, Timestamp r] @ map (lookup (Values r)) requiredMeasurements_plain = header_plain"
  then have "Timestamp r = ''timestamp''" by (simp add: header_plain_def)
  with parseRow_plain_Inr_timestamp [OF assms] show False by simp
qed

lemma processFile_plain_scan_written:
  "\<exists>rows. written (snd (processFile_plain_scan ls w)) = written w @ rows \<and> header_plain \<notin> set rows"
proof (induction ls arbitrary: w)
  case Nil
  show ?case by simp
next
  case (Cons line rest)
  show ?case
  proof (cases "HasPrefix line ''S,''")
    case False
    with Cons [of w] show ?thesis by auto
  next
    case True
    show ?thesis
    proof (cases "parseRow_plain line")
      case (Panic i n)
      with True show ?thesis by simp
    next
      case (Ret res)
      show ?thesis
      proof (cases res)
        case (Inl err)
        with Ret True Cons [of "printf (''Skipping line due to error: '' @ Error err @ newline) (called line w)"]
        show ?thesis by simp
      next
        case (Inr r)
        let ?row = "[StationID r, Timestamp r] @ map (lookup (Values r)) requiredMeasurements_plain"
        from Cons [of "Write ?row (called line w)"] obtain rows where
          "written (snd (processFile_plain_scan rest (Write ?row (called line w)))) = written w @ ?row # rows"
          "header_plain \<notin> set rows" by auto
        moreover from Ret Inr have "?row \<noteq> header_plain"
          by (simp only: data_row_not_header_plain not_False_eq_True)
        ultimately have
          "written (snd (processFile_plain_scan rest (Write ?row (called line w)))) = written w @ (?row # rows) \<and>
           header_plain \<notin> set (?row # rows)" by auto
        with Ret Inr True show ?thesis by auto
      qed
    qed
  qed
qed

text \<open>What \<^verbatim>\<open>processFile\<close> adds to the output, and how it ends.\<close>

lemma processFile_plain_written:
  "\<exists>rows. written (snd (processFile_plain file writeHeader w)) =
            written w @ (if writeHeader \<and> openErr file = None then [header_plain] else []) @ rows \<and>
          header_plain \<notin> set rows"
proof (cases "openErr file")
  case (Some msg)
  then show ?thesis by (simp add: processFile_plain_def)
next
  case None
  let ?w1 = "if writeHeader then Write header_plain w else w"
  from processFile_plain_scan_written [of "scanned file" ?w1] obtain rows where
    "written (snd (processFile_plain_scan (scanned file) ?w1)) = written ?w1 @ rows"
    "header_plain \<notin> set rows" by blast
  with None show ?thesis
    by (cases "processFile_plain_scan (scanned file) ?w1")
       (auto simp: processFile_plain_def split: res.split option.split)
qed

lemma processFile_plain_refused:
  assumes "openErr file = Some msg"
  shows "processFile_plain file writeHeader w = (Ret (Some (CannotOpen (filePath file) msg)), w)"
  using assms by (simp add: processFile_plain_def)

lemma processFile_plain_read_through:
  assumes "openErr file = None" and "scanErr file = None"
  shows "fst (processFile_plain file writeHeader w) = Ret None \<or>
         (\<exists>i n. fst (processFile_plain file writeHeader w) = Panic i n)"
  using assms
  by (auto simp: processFile_plain_def Let_def split: prod.split res.split)

text \<open>Once \<^verbatim>\<open>writeHeader\<close> is false, the walk writes data rows only.\<close>

lemma walk_plain_no_header:
  "\<exists>rows. written (snd (walk_plain es False w)) = written w @ rows \<and> header_plain \<notin> set rows"
proof (induction es arbitrary: w)
  case Nil
  show ?case by simp
next
  case (Cons e es)
  show ?case
  proof (cases e)
    case (WalkError path msg)
    then show ?thesis by simp
  next
    case (Directory path)
    with Cons [of w] show ?thesis by simp
  next
    case (Regular name f)
    show ?thesis
    proof (cases "HasSuffix name ''.txt''")
      case False
      with Regular Cons [of w] show ?thesis by simp
    next
      case True
      let ?w1 = "printf (''Processing file: '' @ filePath f @ newline) w"
      obtain res w2 where p: "processFile_plain f False ?w1 = (res, w2)"
        by (cases "processFile_plain f False ?w1")
      from processFile_plain_written [of f False ?w1] p
      obtain rows1 where r1: "written w2 = written w @ rows1" "header_plain \<notin> set rows1"
        by auto
      show ?thesis
      proof (cases res)
        case (Panic i n)
        with Regular True p r1 show ?thesis by simp
      next
        case (Ret eo)
        show ?thesis
        proof (cases eo)
          case None
          from Cons [of w2] obtain rows2 where
            "written (snd (walk_plain es False w2)) = written w2 @ rows2" "header_plain \<notin> set rows2"
            by blast
          with r1 have "written (snd (walk_plain es False w2)) = written w @ (rows1 @ rows2) \<and>
              header_plain \<notin> set (rows1 @ rows2)" by simp
          with Regular True p Ret None show ?thesis by auto
        next
          case (Some err)
          let ?w3 = "printf (''Error processing file '' @ filePath f @ '': '' @ Error err @ newline) w2"
          from Cons [of ?w3] obtain rows2 where
            "written (snd (walk_plain es False ?w3)) = written ?w3 @ rows2" "header_plain \<notin> set rows2"
            by blast
          with r1 have "written (snd (walk_plain es False ?w3)) = written w @ (rows1 @ rows2) \<and>
              header_plain \<notin> set (rows1 @ rows2)" by simp
          with Regular True p Ret Some show ?thesis by auto
        qed
      qed
    qed
  qed
qed

text \<open>Entries that open no f leave the output and \<^verbatim>\<open>writeHeader\<close> as they are.\<close>

lemma walk_plain_passed:
  assumes "\<forall>e\<in>set pre. passed e"
  shows "\<exists>w'. written w' = written w \<and> walk_plain (pre @ es) h w = walk_plain es h w'"
  using assms
proof (induction pre arbitrary: w)
  case Nil
  show ?case by auto
next
  case (Cons e pre)
  then have rest: "\<forall>e\<in>set pre. passed e" by simp
  show ?case
  proof (cases e)
    case (WalkError path msg)
    with Cons.prems show ?thesis by simp
  next
    case (Directory path)
    with Cons.IH [OF rest, of w] show ?thesis by simp
  next
    case (Regular name f)
    show ?thesis
    proof (cases "HasSuffix name ''.txt''")
      case False
      with Regular Cons.IH [OF rest, of w] show ?thesis by simp
    next
      case True
      with Regular Cons.prems obtain msg where msg: "openErr f = Some msg" by auto
      let ?w3 = "printf (''Error processing file '' @ filePath f @ '': ''
                    @ Error (CannotOpen (filePath f) msg) @ newline)
                  (printf (''Processing file: '' @ filePath f @ newline) w)"
      from Cons.IH [OF rest, of ?w3] obtain w' where
        "written w' = written w" "walk_plain (pre @ es) h ?w3 = walk_plain es h w'" by auto
      with Regular True msg show ?thesis
        by (auto simp: processFile_plain_refused)
    qed
  qed
qed

lemma run_plain_written:
  "written (snd (run_plain es)) = written (snd (walk_plain es True start))"
  by (simp add: run_plain_def split: prod.split res.split option.split)

text \<open>
  What the revision whose \<^verbatim>\<open>processFile\<close> writes the header does guarantee. Let the
  walk first meet entries that open no file. If it ends there, or stops there at an
  inaccessible entry, nothing is written. If the next entry is a \<^verbatim>\<open>.txt\<close> file that
  opens and is read without a read error, the header is the first row written and occurs
  exactly once in the output, whatever the entries after that file are.
\<close>

lemma header_once_plain:
  assumes "\<forall>e\<in>set pre. passed e"
  shows "written (snd (run_plain pre)) = [] \<and>
         written (snd (run_plain (pre @ WalkError path msg # post))) = [] \<and>
         (HasSuffix name ''.txt'' \<and> openErr f = None \<and> scanErr f = None \<longrightarrow>
            (\<exists>rows. written (snd (run_plain (pre @ Regular name f # post))) = header_plain # rows \<and>
                    header_plain \<notin> set rows) \<and>
            count_list (written (snd (run_plain (pre @ Regular name f # post)))) header_plain = 1)"
proof (intro conjI impI)
  from walk_plain_passed [OF assms, of start "[]" True]
  show "written (snd (run_plain pre)) = []"
    by (auto simp: run_plain_written start_def)
  from walk_plain_passed [OF assms, of start "WalkError path msg # post" True]
  show "written (snd (run_plain (pre @ WalkError path msg # post))) = []"
    by (auto simp: run_plain_written start_def)
next
  assume good: "HasSuffix name ''.txt'' \<and> openErr f = None \<and> scanErr f = None"
  let ?es = "pre @ Regular name f # post"
  from walk_plain_passed [OF assms, of start "Regular name f # post" True]
  obtain w' where w': "written w' = []" "walk_plain ?es True start = walk_plain (Regular name f # post) True w'"
    by (auto simp: start_def)
  let ?w1 = "printf (''Processing file: '' @ filePath f @ newline) w'"
  obtain res w2 where p: "processFile_plain f True ?w1 = (res, w2)"
    by (cases "processFile_plain f True ?w1")
  from processFile_plain_written [of f True ?w1] p good w'
  obtain rows1 where r1: "written w2 = header_plain # rows1" "header_plain \<notin> set rows1"
    by auto
  from processFile_plain_read_through [of f True ?w1] p good
  have "res = Ret None \<or> (\<exists>i n. res = Panic i n)" by simp
  then have "\<exists>rows. written (snd (walk_plain ?es True start)) = header_plain # rows \<and> header_plain \<notin> set rows"
  proof
    assume "res = Ret None"
    moreover from walk_plain_no_header [of post w2] obtain rows2 where
      "written (snd (walk_plain post False w2)) = written w2 @ rows2" "header_plain \<notin> set rows2"
      by blast
    ultimately show ?thesis using w' p good r1 by auto
  next
    assume "\<exists>i n. res = Panic i n"
    then show ?thesis using w' p good r1 by auto
  qed
  then show ex: "\<exists>rows. written (snd (run_plain ?es)) = header_plain # rows \<and> header_plain \<notin> set rows"
    by (simp add: run_plain_written)
  then show "count_list (written (snd (run_plain ?es))) header_plain = 1"
    by (auto simp: count_list_0_iff)
qed

text \<open>An instance: later files with a read error or an open error add no header.\<close>

lemma header_once_plain_example:
  "list_all passed
     [Directory ''in'',
      Regular ''notes.md'' \<lparr>filePath = ''in/notes.md'', openErr = None, scanned = [''S,1,2''], scanErr = None\<rparr>,
      Regular ''a.txt'' \<lparr>filePath = ''in/a.txt'', openErr = Some ''permission denied'', scanned = [], scanErr = None\<rparr>] \<and>
   HasSuffix ''b.txt'' ''.txt'' \<and>
   written (snd (run_plain
     ([Directory ''in'',
       Regular ''notes.md'' \<lparr>filePath = ''in/notes.md'', openErr = None, scanned = [''S,1,2''], scanErr = None\<rparr>,
       Regular ''a.txt'' \<lparr>filePath = ''in/a.txt'', openErr = Some ''permission denied'', scanned = [], scanErr = None\<rparr>]
      @ Regular ''b.txt'' \<lparr>filePath = ''in/b.txt'', openErr = None,
            scanned = [''# log'', ''S,0012,9,5,0,15,6,2023,1,2,21.5''], scanErr = None\<rparr>
      # [Regular ''c.txt'' \<lparr>filePath = ''in/c.txt'', openErr = None,
            scanned = [''S,7,9,5,0,16,6,2023,2,2,55''], scanErr = Some ''token too long''\<rparr>,
         Regular ''d.txt'' \<lparr>filePath = ''in/d.txt'', openErr = Some ''permission denied'',
            scanned = [], scanErr = None\<rparr>]))) =
     [header_plain,
      [''12'', ''2023-06-15T09:05:00'', ''21.5'', [], [], [], []],
      [''7'', ''2023-06-16T09:05:00'', [], ''55'', [], [], []]] \<and>
   count_list (written (snd (run_plain
     ([Directory ''in'',
       Regular ''notes.md'' \<lparr>filePath = ''in/notes.md'', openErr = None, scanned = [''S,1,2''], scanErr = None\<rparr>,
       Regular ''a.txt'' \<lparr>filePath = ''in/a.txt'', openErr = Some ''permission denied'', scanned = [], scanErr = None\<rparr>]
      @ Regular ''b.txt'' \<lparr>filePath = ''in/b.txt'', openErr = None,
            scanned = [''# log'', ''S,0012,9,5,0,15,6,2023,1,2,21.5''], scanErr = None\<rparr>
      # [Regular ''c.txt'' \<lparr>filePath = ''in/c.txt'', openErr = None,
            scanned = [''S,7,9,5,0,16,6,2023,2,2,55''], scanErr = Some ''token too long''\<rparr>,
         Regular ''d.txt'' \<lparr>filePath = ''in/d.txt'', openErr = Some ''permission denied'',
            scanned = [], scanErr = None\<rparr>])))) header_plain = 1"
  using header_once_plain [where
      pre = "[Directory ''in'',
        Regular ''notes.md'' \<lparr>filePath = ''in/notes.md'', openErr = None, scanned = [''S,1,2''], scanErr = None\<rparr>,
        Regular ''a.txt'' \<lparr>filePath = ''in/a.txt'', openErr = Some ''permission denied'', scanned = [], scanErr = None\<rparr>]"
      and name = "''b.txt''"
      and f = "\<lparr>filePath = ''in/b.txt'', openErr = None,
            scanned = [''# log'', ''S,0012,9,5,0,15,6,2023,1,2,21.5''], scanErr = None\<rparr>"
      and post = "[Regular ''c.txt'' \<lparr>filePath = ''in/c.txt'', openErr = None,
            scanned = [''S,7,9,5,0,16,6,2023,2,2,55''], scanErr = Some ''token too long''\<rparr>,
         Regular ''d.txt'' \<lparr>filePath = ''in/d.txt'', openErr = Some ''permission denied'',
            scanned = [], scanErr = None\<rparr>]"]
  by (simp add: run_plain_def start_def HasSuffix_def HasPrefix_def processFile_plain_def printf_def
      Write_def called_def parseRow_plain_def Split_Cons zeroPad_def TrimLeft_def parseRow_plain_loop_step
      measurementName_plain_def measurementMap_plain_def lookup_def requiredMeasurements_plain_def)

text \<open>
  A run over a directory whose only \<^verbatim>\<open>.txt\<close> file cannot be opened writes nothing at
  all: the header is written inside \<^verbatim>\<open>processFile\<close>, after the file has been opened.
\<close>

lemma no_file_opens_no_header:
  "written (snd (run_plain
      [Directory ''in'',
       Regular ''a.txt'' \<lparr>filePath = ''in/a.txt'', openErr = Some ''permission denied'',
                          scanned = [], scanErr = None\<rparr>])) = [] \<and>
   count_list (written (snd (run_plain
      [Directory ''in'',
       Regular ''a.txt'' \<lparr>filePath = ''in/a.txt'', openErr = Some ''permission denied'',
                          scanned = [], scanErr = None\<rparr>]))) header_plain \<noteq> 1"
  by (simp add: run_plain_def start_def HasSuffix_def processFile_plain_def printf_def)

text \<open>
  Two defects of the header logic. First, in the revision without a cutoff
  \<^verbatim>\<open>writeHeader\<close> stays true until a file has been processed without any error: a file
  that opens and then fails with a read error has had the header written, and the next
  file that opens gets the header again.
\<close>

lemma header_twice_after_read_error:
  "written (snd (run_plain
     [Regular ''a.txt'' \<lparr>filePath = ''in/a.txt'', openErr = None,
            scanned = [''S,7,9,5,0,16,6,2023,2,2,55''], scanErr = Some ''token too long''\<rparr>,
      Regular ''b.txt'' \<lparr>filePath = ''in/b.txt'', openErr = None,
            scanned = [''S,0012,9,5,0,15,6,2023,1,2,21.5''], scanErr = None\<rparr>])) =
     [header_plain,
      [''7'', ''2023-06-16T09:05:00'', [], ''55'', [], [], []],
      header_plain,
      [''12'', ''2023-06-15T09:05:00'', ''21.5'', [], [], [], []]]"
  by (simp add: run_plain_def start_def HasSuffix_def HasPrefix_def processFile_plain_def printf_def
      Write_def called_def parseRow_plain_def Split_Cons zeroPad_def TrimLeft_def parseRow_plain_loop_step
      measurementName_plain_def measurementMap_plain_def lookup_def requiredMeasurements_plain_def)

text \<open>
  Second, \<^verbatim>\<open>processFile\<close> of the recency-filtering revision never reads its parameter
  \<^verbatim>\<open>writeHeader\<close>, although \<^verbatim>\<open>main\<close> still keeps the variable: that revision writes data
  rows only, and its output has no header.
\<close>

lemma processFile_ignores_writeHeader:
  "processFile timeParse file True cutoff w = processFile timeParse file False cutoff w"
  by (simp add: processFile_def)

lemma filtering_run_without_header:
  "written (snd (run (map_of [(''2023-06-15T09:05:00'', 5)]) 0
     [Regular ''a.txt'' \<lparr>filePath = ''in/a.txt'', openErr = None,
            scanned = [''S,0012,9,5,0,15,6,2023,1,2,21.5''], scanErr = None\<rparr>])) =
     [[''12'', ''2023-06-15T09:05:00'', ''21.5'', [], [], [], [], [], [], [], [], [], []]]"
  by (simp add: run_def start_def HasSuffix_def HasPrefix_def processFile_def printf_def
      Write_def called_def parseRow_def Split_Cons zeroPad_def TrimLeft_def parseRow_loop_step Before_def
      measurementName_def measurementMap_def lookup_def requiredMeasurements_def)

text \<open>
  Claim C1. The header row is to be written exactly once per run, before the first data
  row, and never a second time. The code departs from this in both revisions. The
  recency-filtering revision, run over one readable file with one valid line, writes
  the data row and no header: its \<^verbatim>\<open>processFile\<close> has lost the header block that the
  other revision has, while \<^verbatim>\<open>main\<close> still passes \<^verbatim>\<open>writeHeader\<close>. The revision without a
  cutoff, run over a file that ends in a read error followed by a good file, writes the
  header twice.
\<close>

theorem header_not_exactly_once:
  "written (snd (run (map_of [(''2023-06-15T09:05:00'', 5)]) 0
     [Regular ''a.txt'' \<lparr>filePath = ''in/a.txt'', openErr = None,
            scanned = [''S,0012,9,5,0,15,6,2023,1,2,21.5''], scanErr = None\<rparr>])) =
     [[''12'', ''2023-06-15T09:05:00'', ''21.5'', [], [], [], [], [], [], [], [], [], []]] \<and>
   [''station_id'', ''timestamp''] @ requiredMeasurements \<notin>
     set (written (snd (run (map_of [(''2023-06-15T09:05:00'', 5)]) 0
       [Regular ''a.txt'' \<lparr>filePath = ''in/a.txt'', openErr = None,
              scanned = [''S,0012,9,5,0,15,6,2023,1,2,21.5''], scanErr = None\<rparr>]))) \<and>
   count_list (written (snd (run_plain
     [Regular ''a.txt'' \<lparr>filePath = ''in/a.txt'', openErr = None,
            scanned = [''S,7,9,5,0,16,6,2023,2,2,55''], scanErr = Some ''token too long''\<rparr>,
      Regular ''b.txt'' \<lparr>filePath = ''in/b.txt'', openErr = None,
            scanned = [''S,0012,9,5,0,15,6,2023,1,2,21.5''], scanErr = None\<rparr>]))) header_plain = 2"
  using filtering_run_without_header header_twice_after_read_error
  by (simp add: requiredMeasurements_def header_plain_def requiredMeasurements_plain_def)

end
